theory Spec2Isabelle
  imports Complex_Main "HOL-Library.AList"
begin

section \<open>Data model\<close>

text \<open>
  The notebook \<^verbatim>\<open>04_Writing_Viterbi_Algorithm_for_the_Primer.ipynb\<close> keeps the
  hidden Markov model in four module-level tables and defines three functions over
  them: \<^verbatim>\<open>safe_log\<close>, \<^verbatim>\<open>calc_path_probability\<close> and \<^verbatim>\<open>find_best_path\<close>.
  The tables are read, never written, by the functions; they are passed here as a record.

  Python floats are modelled as exact real numbers. The value \<^verbatim>\<open>-math.inf\<close>, the only
  non-finite float the functions can produce from real-valued tables, is a constructor of
  its own. Rounding and underflow of IEEE doubles are outside this model. A theorem
  about the decoder on every sequence is therefore stated either about what the decoder
  returns, in a way that does not depend on rounding, or within a bound on the length
  that keeps the doubles of the run in their normal range.

  States and bases are Python strings. A Python \<^verbatim>\<open>str\<close> argument such as
  \<^verbatim>\<open>"CTTCA"\<close> is iterated and indexed character by character, each character being a
  string of length one: it is the list \<open>chars ''CTTCA''\<close>.
\<close>

datatype error = ValueError string | KeyError "string option" | IndexError

datatype pyfloat = NegInf | Fin real

record model =
  hmm_states :: "string list"
  dna_bases :: "string list"
  start_probs :: "string \<rightharpoonup> real"
  trans_probs :: "string \<rightharpoonup> (string \<rightharpoonup> real)"
  emit_probs :: "string \<rightharpoonup> (string \<rightharpoonup> real)"

definition reference_model :: model where
  "reference_model = \<lparr>
     hmm_states = [''E'', ''5'', ''I''],
     dna_bases = [''A'', ''C'', ''G'', ''T''],
     start_probs = [''E'' \<mapsto> 1.0, ''5'' \<mapsto> 0.0, ''I'' \<mapsto> 0.0],
     trans_probs = [
       ''Start'' \<mapsto> [''E'' \<mapsto> 1.0, ''5'' \<mapsto> 0.0, ''I'' \<mapsto> 0.0, ''End'' \<mapsto> 0.0],
       ''E'' \<mapsto> [''E'' \<mapsto> 0.9, ''5'' \<mapsto> 0.1, ''I'' \<mapsto> 0.0, ''End'' \<mapsto> 0.0],
       ''5'' \<mapsto> [''E'' \<mapsto> 0.0, ''5'' \<mapsto> 0.0, ''I'' \<mapsto> 1.0, ''End'' \<mapsto> 0.0],
       ''I'' \<mapsto> [''E'' \<mapsto> 0.0, ''5'' \<mapsto> 0.0, ''I'' \<mapsto> 0.9, ''End'' \<mapsto> 0.1]],
     emit_probs = [
       ''E'' \<mapsto> [''A'' \<mapsto> 0.25, ''C'' \<mapsto> 0.25, ''G'' \<mapsto> 0.25, ''T'' \<mapsto> 0.25],
       ''5'' \<mapsto> [''A'' \<mapsto> 0.05, ''C'' \<mapsto> 0.0, ''G'' \<mapsto> 0.95, ''T'' \<mapsto> 0.0],
       ''I'' \<mapsto> [''A'' \<mapsto> 0.4, ''C'' \<mapsto> 0.1, ''G'' \<mapsto> 0.1, ''T'' \<mapsto> 0.4]]
   \<rparr>"

definition chars :: "string \<Rightarrow> string list" where
  "chars s = map (\<lambda>c. [c]) s"

text \<open>The sequence of the notebook's two calls.\<close>

definition primer_seq :: "string list" where
  "primer_seq = chars ''CTTCATGTGAAAGCAGACGTAAGTCA''"

section \<open>Exceptions, subscripts and loops\<close>

definition ebind :: "error + 'a \<Rightarrow> ('a \<Rightarrow> error + 'b) \<Rightarrow> error + 'b" where
  "ebind x f = (case x of Inl e \<Rightarrow> Inl e | Inr v \<Rightarrow> f v)"

text \<open>\<^verbatim>\<open>d[k]\<close> on a dictionary: a missing key raises \<^verbatim>\<open>KeyError(k)\<close>.\<close>

definition getitem :: "(string \<rightharpoonup> 'v) \<Rightarrow> string \<Rightarrow> error + 'v" where
  "getitem d k = (case d k of None \<Rightarrow> Inl (KeyError (Some k)) | Some v \<Rightarrow> Inr v)"

text \<open>The same subscript when the key is a variable that may hold \<^verbatim>\<open>None\<close>; no
  dictionary of the notebook has the key \<^verbatim>\<open>None\<close>.\<close>

definition getitem_opt :: "(string \<rightharpoonup> 'v) \<Rightarrow> string option \<Rightarrow> error + 'v" where
  "getitem_opt d k = (case k of None \<Rightarrow> Inl (KeyError None) | Some s \<Rightarrow> getitem d s)"

text \<open>\<^verbatim>\<open>xs[i]\<close> on a list or string: negative indices count from the end, anything out
  of range raises \<^verbatim>\<open>IndexError\<close>.\<close>

definition py_index :: "'a list \<Rightarrow> int \<Rightarrow> error + 'a" where
  "py_index xs i =
     (if 0 \<le> i \<and> i < int (length xs) then Inr (xs ! nat i)
      else if i < 0 \<and> - int (length xs) \<le> i then Inr (xs ! nat (int (length xs) + i))
      else Inl IndexError)"

text \<open>\<^verbatim>\<open>for x in xs: body\<close>, where the body updates the loop state and may raise.\<close>

primrec foldM :: "('a \<Rightarrow> 's \<Rightarrow> error + 's) \<Rightarrow> 'a list \<Rightarrow> 's \<Rightarrow> error + 's" where
  "foldM f [] s = Inr s"
| "foldM f (x # xs) s = (case f x s of Inl e \<Rightarrow> Inl e | Inr s' \<Rightarrow> foldM f xs s')"

section \<open>The path scorer\<close>

text \<open>\<^verbatim>\<open>math.log\<close> raises \<^verbatim>\<open>ValueError\<close> on a negative argument.\<close>

definition safe_log :: "real \<Rightarrow> error + pyfloat" where
  "safe_log num =
     (if num = 0 then Inr NegInf
      else if num < 0 then Inl (ValueError ''math domain error'')
      else Inr (Fin (ln num)))"

fun fadd :: "pyfloat \<Rightarrow> pyfloat \<Rightarrow> pyfloat" where
  "fadd (Fin a) (Fin b) = Fin (a + b)"
| "fadd _ _ = NegInf"

fun fle :: "pyfloat \<Rightarrow> pyfloat \<Rightarrow> bool" where
  "fle NegInf _ = True"
| "fle (Fin a) NegInf = False"
| "fle (Fin a) (Fin b) = (a \<le> b)"

text \<open>One iteration of the loop over \<^verbatim>\<open>zip(states, sequence)\<close>; the loop state is
  \<^verbatim>\<open>(total_log_prob, last_state)\<close>.\<close>

definition score_step ::
  "model \<Rightarrow> string \<times> string \<Rightarrow> pyfloat \<times> string \<Rightarrow> error + (pyfloat \<times> string)" where
  "score_step m cb acc =
     (case (cb, acc) of ((curr_state, base), (total_log_prob, last_state)) \<Rightarrow>
        ebind (getitem (trans_probs m) last_state) (\<lambda>row.
        ebind (getitem row curr_state) (\<lambda>tp.
        ebind (safe_log tp) (\<lambda>trans_prob.
        ebind (getitem (emit_probs m) curr_state) (\<lambda>erow.
        ebind (getitem erow base) (\<lambda>ep.
        ebind (safe_log ep) (\<lambda>emit_prob.
          Inr (fadd total_log_prob (fadd trans_prob emit_prob), curr_state))))))))"

definition calc_path_probability :: "model \<Rightarrow> string list \<Rightarrow> string list \<Rightarrow> error + pyfloat" where
  "calc_path_probability m states sequence =
     (if length states \<noteq> length sequence
      then Inl (ValueError ''States and sequence must be the same length.'')
      else
        ebind (foldM (score_step m) (zip states sequence) (Fin 0, ''Start''))
          (\<lambda>(total_log_prob, last_state).
            if last_state = ''I''
            then
              ebind (getitem (trans_probs m) last_state) (\<lambda>row.
              ebind (getitem row ''End'') (\<lambda>p.
              ebind (safe_log p) (\<lambda>l.
                Inr (fadd total_log_prob l))))
            else Inr total_log_prob))"

section \<open>The Viterbi decoder\<close>

text \<open>
  \<^verbatim>\<open>dp_table\<close> and \<^verbatim>\<open>backtrack\<close> are lists of dictionaries, one per position. A
  dictionary that is filled and then iterated is an association list in insertion order
  (\<open>AList.update\<close> keeps the place of a key that is already there, as Python does).
  A backpointer is a state or \<^verbatim>\<open>None\<close>.
\<close>

type_synonym dp_tables = "(string \<times> real) list list \<times> (string \<times> string option) list list"

text \<open>Body of the first loop:
  \<^verbatim>\<open>dp_table[0][state] = start_probs[state] * emit_probs[state][dna_seq[0]]\<close>.\<close>

definition init_step ::
  "model \<Rightarrow> string list \<Rightarrow> string \<Rightarrow> (string \<times> real) list list
     \<Rightarrow> error + (string \<times> real) list list" where
  "init_step m dna_seq state dp_table =
     ebind (getitem (start_probs m) state) (\<lambda>sp.
     ebind (getitem (emit_probs m) state) (\<lambda>erow.
     ebind (py_index dna_seq 0) (\<lambda>base.
     ebind (getitem erow base) (\<lambda>ep.
     ebind (py_index dp_table 0) (\<lambda>col.
       Inr (dp_table[0 := AList.update state (sp * ep) col]))))))"

text \<open>Body of the loop over \<^verbatim>\<open>previous\<close>; the loop state is
  \<^verbatim>\<open>(best_prob, best_prev)\<close>. Inside the loop over \<^verbatim>\<open>range(1, seq_len)\<close> the
  subscripts \<^verbatim>\<open>dp_table[pos-1]\<close> and \<^verbatim>\<open>dna_seq[pos]\<close> are in range.\<close>

definition inner_step ::
  "model \<Rightarrow> string list \<Rightarrow> (string \<times> real) list list \<Rightarrow> nat \<Rightarrow> string \<Rightarrow> string
     \<Rightarrow> real \<times> string option \<Rightarrow> error + (real \<times> string option)" where
  "inner_step m dna_seq dp_table pos current previous best =
     (case best of (best_prob, best_prev) \<Rightarrow>
        ebind (getitem (map_of (dp_table ! (pos - 1))) previous) (\<lambda>a.
        ebind (getitem (trans_probs m) previous) (\<lambda>row.
        ebind (getitem row current) (\<lambda>t.
        ebind (getitem (emit_probs m) current) (\<lambda>erow.
        ebind (getitem erow (dna_seq ! pos)) (\<lambda>e.
          let new_prob = a * t * e in
          Inr (if new_prob > best_prob then (new_prob, Some previous)
               else (best_prob, best_prev))))))))"

text \<open>Body of the loop over \<^verbatim>\<open>current\<close>.\<close>

definition fill_cell :: "model \<Rightarrow> string list \<Rightarrow> nat \<Rightarrow> string \<Rightarrow> dp_tables \<Rightarrow> error + dp_tables" where
  "fill_cell m dna_seq pos current tabs =
     (case tabs of (dp_table, backtrack) \<Rightarrow>
        ebind (foldM (inner_step m dna_seq dp_table pos current) (hmm_states m) (0.0, None))
          (\<lambda>(best_prob, best_prev).
            Inr (dp_table[pos := AList.update current best_prob (dp_table ! pos)],
                 backtrack[pos := AList.update current best_prev (backtrack ! pos)])))"

text \<open>Body of the loop over \<^verbatim>\<open>pos\<close>.\<close>

definition fill_pos :: "model \<Rightarrow> string list \<Rightarrow> nat \<Rightarrow> dp_tables \<Rightarrow> error + dp_tables" where
  "fill_pos m dna_seq pos tabs = foldM (fill_cell m dna_seq pos) (hmm_states m) tabs"

text \<open>\<^verbatim>\<open>max(d, key=d.get)\<close>: the keys are visited in insertion order and a later key
  replaces the running maximum only when its value is strictly greater; an empty
  dictionary raises \<^verbatim>\<open>ValueError\<close>.\<close>

definition max_step :: "string \<times> real \<Rightarrow> string \<times> real \<Rightarrow> string \<times> real" where
  "max_step kv best = (if snd kv > snd best then kv else best)"

definition py_max_key :: "(string \<times> real) list \<Rightarrow> error + string" where
  "py_max_key d =
     (case d of
        [] \<Rightarrow> Inl (ValueError ''max() iterable argument is empty'')
      | kv # rest \<Rightarrow> Inr (fst (fold max_step rest kv)))"

text \<open>Body of the traceback loop; the loop state is \<^verbatim>\<open>(final_state, best_path)\<close>.\<close>

definition trace_step ::
  "(string \<times> string option) list list \<Rightarrow> nat \<Rightarrow> string option \<times> string option list
     \<Rightarrow> error + (string option \<times> string option list)" where
  "trace_step backtrack pos acc =
     (case acc of (final_state, best_path) \<Rightarrow>
        ebind (getitem_opt (map_of (backtrack ! pos)) final_state) (\<lambda>prev.
          Inr (prev, prev # best_path)))"

definition find_best_path :: "model \<Rightarrow> string list \<Rightarrow> error + string option list" where
  "find_best_path m dna_seq =
     (let seq_len = length dna_seq in
      ebind (foldM (init_step m dna_seq) (hmm_states m) (replicate seq_len [])) (\<lambda>dp_table0.
      ebind (foldM (fill_pos m dna_seq) [1..<seq_len] (dp_table0, replicate seq_len []))
        (\<lambda>(dp_table, backtrack).
      ebind (py_index dp_table (int seq_len - 1)) (\<lambda>last_col.
      ebind (py_max_key last_col) (\<lambda>final_state.
      ebind (foldM (trace_step backtrack) (rev [1..<seq_len])
               (Some final_state, [Some final_state]))
        (\<lambda>(final_state', best_path). Inr best_path))))))"

section \<open>Valid models and the quantities the claims speak of\<close>

text \<open>
  The definitions of this section do not come from the notebook. They state what the
  specification calls a valid model and name the probabilities a path looks up, so that
  the behaviour of the two functions can be compared with them.
\<close>

text \<open>The entries of the three tables, read where the table has them.\<close>

definition tp :: "model \<Rightarrow> string \<Rightarrow> string \<Rightarrow> real" where
  "tp m a b = the (the (trans_probs m a) b)"

definition ep :: "model \<Rightarrow> string \<Rightarrow> string \<Rightarrow> real" where
  "ep m s b = the (the (emit_probs m s) b)"

definition sp :: "model \<Rightarrow> string \<Rightarrow> real" where
  "sp m s = the (start_probs m s)"

text \<open>A row of a table is a probability distribution over the given keys: every key has
  an entry in [0, 1] and the entries sum to 1.\<close>

definition prob_row :: "(string \<rightharpoonup> real) \<Rightarrow> string list \<Rightarrow> bool" where
  "prob_row row keys =
     ((\<forall>k \<in> set keys. case row k of None \<Rightarrow> False | Some p \<Rightarrow> 0 \<le> p \<and> p \<le> 1) \<and>
      sum_list (map (\<lambda>k. case row k of None \<Rightarrow> 0 | Some p \<Rightarrow> p) keys) = 1)"

text \<open>A valid model: a nonempty alphabet of distinct states, none of them one of the two
  virtual markers; start probabilities over the states; for \<^verbatim>\<open>'Start'\<close> and for every
  state a transition row over the states and \<^verbatim>\<open>'End'\<close>; for every state an emission
  row over the bases.\<close>

definition valid_model :: "model \<Rightarrow> bool" where
  "valid_model m =
     (hmm_states m \<noteq> [] \<and> distinct (hmm_states m) \<and> distinct (dna_bases m) \<and>
      ''Start'' \<notin> set (hmm_states m) \<and> ''End'' \<notin> set (hmm_states m) \<and>
      prob_row (start_probs m) (hmm_states m) \<and>
      (\<forall>a \<in> set (''Start'' # hmm_states m).
         case trans_probs m a of None \<Rightarrow> False
         | Some row \<Rightarrow> prob_row row (hmm_states m @ [''End''])) \<and>
      (\<forall>s \<in> set (hmm_states m).
         case emit_probs m s of None \<Rightarrow> False
         | Some row \<Rightarrow> prob_row row (dna_bases m)))"


text \<open>The logarithm of a probability, with \<open>log 0 = -\<infinity>\<close>.\<close>

definition plog :: "real \<Rightarrow> pyfloat" where
  "plog p = (if p = 0 then NegInf else Fin (ln p))"

text \<open>The term of position \<open>i\<close> in the score of a path: log transition from the state
  before (\<^verbatim>\<open>'Start'\<close> at position 0) plus log emission of the base at \<open>i\<close>.\<close>

definition log_term :: "model \<Rightarrow> string list \<Rightarrow> string list \<Rightarrow> nat \<Rightarrow> pyfloat" where
  "log_term m states sequence i =
     fadd (plog (tp m (if i = 0 then ''Start'' else states ! (i - 1)) (states ! i)))
          (plog (ep m (states ! i) (sequence ! i)))"

text \<open>The sum of these terms over all positions of the path.\<close>

definition sum_log_terms :: "model \<Rightarrow> string list \<Rightarrow> string list \<Rightarrow> pyfloat" where
  "sum_log_terms m states sequence =
     foldr fadd (map (log_term m states sequence) [0..<length states]) (Fin 0)"


text \<open>The product of the transition and emission probabilities along a path.\<close>

fun path_prob :: "model \<Rightarrow> string \<Rightarrow> string list \<Rightarrow> string list \<Rightarrow> real" where
  "path_prob m prev (s # states) (b # sequence) =
     tp m prev s * ep m s b * path_prob m s states sequence"
| "path_prob m prev _ _ = 1"

text \<open>The same sum as \<open>sum_log_terms\<close>, by recursion along the path.\<close>

fun log_sum :: "model \<Rightarrow> string \<Rightarrow> string list \<Rightarrow> string list \<Rightarrow> pyfloat" where
  "log_sum m prev (s # states) (b # sequence) =
     fadd (fadd (plog (tp m prev s)) (plog (ep m s b))) (log_sum m s states sequence)"
| "log_sum m prev _ _ = Fin 0"

section \<open>The decoder's tables as functions\<close>

text \<open>
  What the decoder's loops compute, written without tables and exceptions: the best
  predecessor of a state, the entries of \<^verbatim>\<open>dp_table\<close> and \<^verbatim>\<open>backtrack\<close> at each
  position, the state the traceback starts from and the path it builds. The lemmas below
  show that \<open>find_best_path\<close> computes exactly these on valid input.
\<close>

definition best_step ::
  "model \<Rightarrow> (string \<Rightarrow> real) \<Rightarrow> string \<Rightarrow> string \<Rightarrow> string
     \<Rightarrow> real \<times> string option \<Rightarrow> real \<times> string option" where
  "best_step m V current base previous best =
     (let new_prob = V previous * tp m previous current * ep m current base in
      if new_prob > fst best then (new_prob, Some previous) else best)"

definition best_pred ::
  "model \<Rightarrow> (string \<Rightarrow> real) \<Rightarrow> string \<Rightarrow> string \<Rightarrow> real \<times> string option" where
  "best_pred m V current base = fold (best_step m V current base) (hmm_states m) (0, None)"

fun vit :: "model \<Rightarrow> string list \<Rightarrow> nat \<Rightarrow> string \<Rightarrow> real" where
  "vit m dna_seq 0 s = sp m s * ep m s (dna_seq ! 0)"
| "vit m dna_seq (Suc k) s = fst (best_pred m (vit m dna_seq k) s (dna_seq ! Suc k))"

definition bptr :: "model \<Rightarrow> string list \<Rightarrow> nat \<Rightarrow> string \<Rightarrow> string option" where
  "bptr m dna_seq k s = snd (best_pred m (vit m dna_seq (k - 1)) s (dna_seq ! k))"

definition dp_col :: "model \<Rightarrow> string list \<Rightarrow> nat \<Rightarrow> (string \<times> real) list" where
  "dp_col m dna_seq k = map (\<lambda>s. (s, vit m dna_seq k s)) (hmm_states m)"

definition bt_col :: "model \<Rightarrow> string list \<Rightarrow> nat \<Rightarrow> (string \<times> string option) list" where
  "bt_col m dna_seq k = map (\<lambda>s. (s, bptr m dna_seq k s)) (hmm_states m)"

text \<open>The two tables when the positions below \<open>k\<close> are filled.\<close>

definition dp_at :: "model \<Rightarrow> string list \<Rightarrow> nat \<Rightarrow> (string \<times> real) list list" where
  "dp_at m dna_seq k =
     map (\<lambda>j. if j < k then dp_col m dna_seq j else []) [0..<length dna_seq]"

definition bt_at :: "model \<Rightarrow> string list \<Rightarrow> nat \<Rightarrow> (string \<times> string option) list list" where
  "bt_at m dna_seq k =
     map (\<lambda>j. if 1 \<le> j \<and> j < k then bt_col m dna_seq j else []) [0..<length dna_seq]"

definition final_state :: "model \<Rightarrow> string list \<Rightarrow> string" where
  "final_state m dna_seq =
     (let d = dp_col m dna_seq (length dna_seq - 1) in fst (fold max_step (tl d) (hd d)))"

fun traced :: "model \<Rightarrow> string list \<Rightarrow> nat \<Rightarrow> string \<Rightarrow> string list" where
  "traced m dna_seq 0 s = [s]"
| "traced m dna_seq (Suc k) s = traced m dna_seq k (the (bptr m dna_seq (Suc k) s)) @ [s]"

section \<open>A second valid model\<close>

text \<open>
  The notebook's tables with one emission row changed: an exon never emits \<^verbatim>\<open>C\<close>.
  The rows still sum to 1, so the model is valid, but no state path can produce a
  sequence that starts with \<^verbatim>\<open>C\<close>.
\<close>

definition silent_model :: model where
  "silent_model = reference_model \<lparr>
     emit_probs := (emit_probs reference_model)
       (''E'' \<mapsto> [''A'' \<mapsto> 0.5, ''C'' \<mapsto> 0.0, ''G'' \<mapsto> 0.25, ''T'' \<mapsto> 0.25]) \<rparr>"

section \<open>Basic facts about the embedding\<close>

lemma ebind_Inr [simp]: "ebind (Inr v) f = f v"
  by (simp add: ebind_def)

lemma ebind_Inl [simp]: "ebind (Inl e) f = Inl e"
  by (simp add: ebind_def)

text \<open>
  Claim C9. Called with an empty path and an empty sequence, \<^verbatim>\<open>calc_path_probability\<close>
  raises nothing and returns 0.0, whatever the tables hold: the loop body never runs and
  the last state is still \<^verbatim>\<open>'Start'\<close>, so no end term is added.
\<close>

theorem calc_path_probability_empty:
  "calc_path_probability m [] [] = Inr (Fin 0)"
  by (simp add: calc_path_probability_def)

lemma fadd_NegInf_right [simp]: "fadd a NegInf = NegInf"
  by (cases a) simp_all

lemma fadd_zero_left [simp]: "fadd (Fin 0) a = a"
  by (cases a) simp_all

lemma fadd_zero_right [simp]: "fadd a (Fin 0) = a"
  by (cases a) simp_all

lemma fadd_assoc: "fadd (fadd a b) c = fadd a (fadd b c)"
  by (cases a; cases b; cases c) simp_all

lemma fle_refl [simp]: "fle a a"
  by (cases a) simp_all

lemma getitem_Some: "d k = Some v \<Longrightarrow> getitem d k = Inr v"
  by (simp add: getitem_def)

lemma prob_rowD:
  assumes "prob_row row keys" and "k \<in> set keys"
  shows "\<exists>p. row k = Some p \<and> 0 \<le> p \<and> p \<le> 1"
proof -
  from assms have "case row k of None \<Rightarrow> False | Some p \<Rightarrow> 0 \<le> p \<and> p \<le> 1"
    by (simp add: prob_row_def)
  then show ?thesis by (cases "row k") simp_all
qed

lemma valid_trans:
  assumes "valid_model m" and "a \<in> set (''Start'' # hmm_states m)"
    and "b \<in> set (hmm_states m @ [''End''])"
  shows "\<exists>row. trans_probs m a = Some row \<and> row b = Some (tp m a b) \<and>
           0 \<le> tp m a b \<and> tp m a b \<le> 1"
proof -
  from assms(1,2) have "case trans_probs m a of None \<Rightarrow> False
      | Some row \<Rightarrow> prob_row row (hmm_states m @ [''End''])"
    unfolding valid_model_def by blast
  then obtain row where row: "trans_probs m a = Some row"
      and pr: "prob_row row (hmm_states m @ [''End''])"
    by (cases "trans_probs m a") simp_all
  from prob_rowD [OF pr assms(3)] obtain p where "row b = Some p" "0 \<le> p" "p \<le> 1"
    by blast
  with row show ?thesis by (simp add: tp_def)
qed

lemma valid_emit:
  assumes "valid_model m" and "s \<in> set (hmm_states m)" and "b \<in> set (dna_bases m)"
  shows "\<exists>row. emit_probs m s = Some row \<and> row b = Some (ep m s b) \<and>
           0 \<le> ep m s b \<and> ep m s b \<le> 1"
proof -
  from assms(1,2) have "case emit_probs m s of None \<Rightarrow> False
      | Some row \<Rightarrow> prob_row row (dna_bases m)"
    unfolding valid_model_def by blast
  then obtain row where row: "emit_probs m s = Some row"
      and pr: "prob_row row (dna_bases m)"
    by (cases "emit_probs m s") simp_all
  from prob_rowD [OF pr assms(3)] obtain p where "row b = Some p" "0 \<le> p" "p \<le> 1"
    by blast
  with row show ?thesis by (simp add: ep_def)
qed

lemma valid_start:
  assumes "valid_model m" and "s \<in> set (hmm_states m)"
  shows "start_probs m s = Some (sp m s) \<and> 0 \<le> sp m s \<and> sp m s \<le> 1"
proof -
  from assms(1) have pr: "prob_row (start_probs m) (hmm_states m)"
    unfolding valid_model_def by blast
  from prob_rowD [OF pr assms(2)] show ?thesis by (auto simp: sp_def)
qed

lemma safe_log_nonneg: "0 \<le> p \<Longrightarrow> safe_log p = Inr (plog p)"
  by (simp add: safe_log_def plog_def)

lemma score_step_valid:
  assumes "valid_model m" and "prev \<in> set (''Start'' # hmm_states m)"
    and "s \<in> set (hmm_states m)" and "b \<in> set (dna_bases m)"
  shows "score_step m (s, b) (acc, prev) =
           Inr (fadd acc (fadd (plog (tp m prev s)) (plog (ep m s b))), s)"
proof -
  from assms(3) have sb: "s \<in> set (hmm_states m @ [''End''])" by simp
  from valid_trans [OF assms(1,2) sb] obtain row where
    row: "trans_probs m prev = Some row" "row s = Some (tp m prev s)" "0 \<le> tp m prev s"
    by blast
  from valid_emit [OF assms(1,3,4)] obtain erow where
    erow: "emit_probs m s = Some erow" "erow b = Some (ep m s b)" "0 \<le> ep m s b"
    by blast
  show ?thesis
    by (simp add: score_step_def getitem_Some row erow safe_log_nonneg)
qed

lemma score_loop_valid:
  assumes "valid_model m" and "length states = length sequence"
  shows "prev \<in> set (''Start'' # hmm_states m) \<Longrightarrow> set states \<subseteq> set (hmm_states m) \<Longrightarrow>
         set sequence \<subseteq> set (dna_bases m) \<Longrightarrow>
         foldM (score_step m) (zip states sequence) (acc, prev) =
           Inr (fadd acc (log_sum m prev states sequence), last (prev # states))"
  using assms(2)
proof (induction states sequence arbitrary: acc prev rule: list_induct2)
  case Nil
  then show ?case by simp
next
  case (Cons s states b sequence)
  from Cons.prems have s: "s \<in> set (hmm_states m)" and b: "b \<in> set (dna_bases m)"
    by simp_all
  have step: "score_step m (s, b) (acc, prev) =
      Inr (fadd acc (fadd (plog (tp m prev s)) (plog (ep m s b))), s)"
    by (rule score_step_valid [OF assms(1) Cons.prems(1) s b])
  have rest: "foldM (score_step m) (zip states sequence)
        (fadd acc (fadd (plog (tp m prev s)) (plog (ep m s b))), s) =
      Inr (fadd (fadd acc (fadd (plog (tp m prev s)) (plog (ep m s b))))
             (log_sum m s states sequence), last (s # states))"
    using Cons.prems s by (intro Cons.IH) simp_all
  show ?case
    by (simp add: step rest fadd_assoc)
qed

lemma calc_path_probability_valid:
  assumes "valid_model m" and "length states = length sequence"
    and "set states \<subseteq> set (hmm_states m)" and "set sequence \<subseteq> set (dna_bases m)"
  shows "calc_path_probability m states sequence =
           Inr (if states \<noteq> [] \<and> last states = ''I''
                then fadd (log_sum m ''Start'' states sequence) (plog (tp m ''I'' ''End''))
                else log_sum m ''Start'' states sequence)"
proof -
  have loop: "foldM (score_step m) (zip states sequence) (Fin 0, ''Start'') =
      Inr (log_sum m ''Start'' states sequence, last (''Start'' # states))"
    using score_loop_valid [OF assms(1,2) _ assms(3,4), of "''Start''" "Fin 0"] by simp
  show ?thesis
  proof (cases "states \<noteq> [] \<and> last states = ''I''")
    case True
    then have I: "''I'' \<in> set (hmm_states m)"
      using assms(3) last_in_set by fastforce
    then have "''I'' \<in> set (''Start'' # hmm_states m)" by simp
    from valid_trans [OF assms(1) this, of "''End''"] obtain row where
      row: "trans_probs m ''I'' = Some row" "row ''End'' = Some (tp m ''I'' ''End'')"
        "0 \<le> tp m ''I'' ''End''"
      by auto
    from True show ?thesis
      by (simp add: calc_path_probability_def assms(2) loop getitem_Some row safe_log_nonneg)
  next
    case False
    then show ?thesis
      by (auto simp: calc_path_probability_def assms(2) loop)
  qed
qed

lemma log_sum_terms:
  assumes "length states = length sequence"
  shows "log_sum m prev states sequence =
     foldr fadd (map (\<lambda>i. fadd (plog (tp m (if i = 0 then prev else states ! (i - 1)) (states ! i)))
                            (plog (ep m (states ! i) (sequence ! i)))) [0..<length states]) (Fin 0)"
  using assms
proof (induction states sequence arbitrary: prev rule: list_induct2)
  case Nil
  then show ?case by simp
next
  case (Cons s states b sequence)
  have upt: "[0..<Suc n] = 0 # map Suc [0..<n]" for n
    by (simp add: upt_conv_Cons map_Suc_upt del: upt_Suc)
  have len: "length (s # states) = Suc (length states)" by simp
  show ?case
    unfolding len upt
    by (simp add: Cons.IH [of s] fadd_assoc o_def nth_Cons' cong: map_cong)
qed

lemma log_sum_eq_sum_log_terms:
  "length states = length sequence \<Longrightarrow>
   log_sum m ''Start'' states sequence = sum_log_terms m states sequence"
  by (simp add: log_sum_terms sum_log_terms_def log_term_def [abs_def])

section \<open>The scorer: its errors and its sum\<close>

lemma reference_model_valid: "valid_model reference_model"
  by (simp add: valid_model_def prob_row_def reference_model_def)


lemma reference_states: "hmm_states reference_model = [''E'', ''5'', ''I'']"
  and reference_bases: "dna_bases reference_model = [''A'', ''C'', ''G'', ''T'']"
  by (simp_all add: reference_model_def)

lemma foldM_error:
  assumes "\<And>x s e. f x s = Inl e \<Longrightarrow> P e"
  shows "foldM f xs s = Inl e \<Longrightarrow> P e"
proof (induction xs arbitrary: s)
  case Nil
  then show ?case by simp
next
  case (Cons x xs)
  then show ?case
    by (cases "f x s") (auto dest: assms)
qed

lemma safe_log_error: "safe_log p = Inl e \<Longrightarrow> e = ValueError ''math domain error''"
  by (auto simp: safe_log_def split: if_splits)

lemma getitem_error: "getitem d k = Inl e \<Longrightarrow> e = KeyError (Some k)"
  by (auto simp: getitem_def split: option.splits)

lemma ebind_error: "ebind x f = Inl e \<Longrightarrow> x = Inl e \<or> (\<exists>v. x = Inr v \<and> f v = Inl e)"
  by (cases x) simp_all

lemma score_step_error:
  assumes "score_step m cb acc = Inl e"
  shows "e = ValueError ''math domain error'' \<or> (\<exists>k. e = KeyError k)"
proof -
  obtain c b t l where cb: "cb = (c, b)" and acc: "acc = (t, l)"
    by (cases cb, cases acc) blast
  from assms show ?thesis
    unfolding score_step_def cb acc prod.case
    by (auto dest!: ebind_error dest: safe_log_error getitem_error)
qed

text \<open>
  Claim C6. \<^verbatim>\<open>calc_path_probability\<close> raises the length \<^verbatim>\<open>ValueError\<close> whenever
  path and sequence differ in length, whatever the tables hold (no table is read
  before the check); on inputs of equal length it never raises that error.
\<close>

theorem length_check:
  "(length states \<noteq> length sequence \<longrightarrow>
      calc_path_probability m states sequence =
        Inl (ValueError ''States and sequence must be the same length.'')) \<and>
   (length states = length sequence \<longrightarrow>
      calc_path_probability m states sequence \<noteq>
        Inl (ValueError ''States and sequence must be the same length.''))"
proof (intro conjI impI)
  assume "length states \<noteq> length sequence"
  then show "calc_path_probability m states sequence =
      Inl (ValueError ''States and sequence must be the same length.'')"
    by (simp add: calc_path_probability_def)
next
  assume len: "length states = length sequence"
  let ?msg = "''States and sequence must be the same length.''"
  let ?loop = "foldM (score_step m) (zip states sequence) (Fin 0, ''Start'')"
  show "calc_path_probability m states sequence \<noteq> Inl (ValueError ?msg)"
  proof
    assume raised: "calc_path_probability m states sequence = Inl (ValueError ?msg)"
    show False
    proof (cases ?loop)
      case (Inl e)
      then have "e = ValueError ''math domain error'' \<or> (\<exists>k. e = KeyError k)"
        by (rule foldM_error [rotated]) (rule score_step_error)
      with raised len Inl show False
        by (auto simp: calc_path_probability_def)
    next
      case (Inr r)
      obtain t l where r: "r = (t, l)" by (cases r)
      from raised len Inr r show False
        by (auto simp: calc_path_probability_def split: if_splits
              dest!: ebind_error dest: safe_log_error getitem_error)
    qed
  qed
qed

text \<open>
  Both cases of C6 on the notebook's model: a path of one state against the empty
  sequence, and against a sequence of one base.
\<close>

theorem length_check_witness:
  "calc_path_probability reference_model [''E''] [] =
     Inl (ValueError ''States and sequence must be the same length.'') \<and>
   calc_path_probability reference_model [''E''] [''A''] \<noteq>
     Inl (ValueError ''States and sequence must be the same length.'')"
proof -
  have a: "length [''E''] \<noteq> length ([] :: string list)" by simp
  have b: "length [''E''] = length [''A'']" by simp
  from length_check [of "[''E'']" "[]" reference_model] a
    length_check [of "[''E'']" "[''A'']" reference_model] b
  show ?thesis by blast
qed

text \<open>
  Claim C5. On the empty sequence \<^verbatim>\<open>find_best_path\<close> returns no result: it raises.
  The error is Python's \<^verbatim>\<open>IndexError\<close>, from \<^verbatim>\<open>dna_seq[0]\<close> in the first loop (or
  from \<^verbatim>\<open>dp_table[-1]\<close> when there is no state at all), unless the first state is
  missing from \<^verbatim>\<open>start_probs\<close> or \<^verbatim>\<open>emit_probs\<close>, which raises \<^verbatim>\<open>KeyError\<close>
  before the sequence is read. With the notebook's tables it is \<^verbatim>\<open>IndexError\<close>.
\<close>

theorem find_best_path_empty:
  "find_best_path m [] =
     Inl (case hmm_states m of
            [] \<Rightarrow> IndexError
          | state # rest \<Rightarrow>
              if start_probs m state = None \<or> emit_probs m state = None
              then KeyError (Some state) else IndexError) \<and>
   find_best_path reference_model [] = Inl IndexError"
  by (auto simp: find_best_path_def init_step_def getitem_def py_index_def reference_model_def
        split: list.splits option.splits)

text \<open>
  Claim C10. With the notebook's tables, a path over \<^verbatim>\<open>E\<close>, \<^verbatim>\<open>5\<close>, \<^verbatim>\<open>I\<close> and a
  sequence over \<^verbatim>\<open>A\<close>, \<^verbatim>\<open>C\<close>, \<^verbatim>\<open>G\<close>, \<^verbatim>\<open>T\<close> of the same length, the scorer
  raises nothing: every lookup, from \<^verbatim>\<open>'Start'\<close> and to \<^verbatim>\<open>'End'\<close> included, finds
  its key and \<^verbatim>\<open>safe_log\<close> is defined on every probability of the tables.
\<close>

theorem scorer_lookups_defined:
  assumes "length states = length sequence"
    and "set states \<subseteq> {''E'', ''5'', ''I''}"
    and "set sequence \<subseteq> {''A'', ''C'', ''G'', ''T''}"
  shows "\<exists>v. calc_path_probability reference_model states sequence = Inr v"
proof -
  have "set states \<subseteq> set (hmm_states reference_model)"
    using assms(2) by (simp add: reference_model_def)
  moreover have "set sequence \<subseteq> set (dna_bases reference_model)"
    using assms(3) by (simp add: reference_model_def)
  ultimately show ?thesis
    using calc_path_probability_valid [OF reference_model_valid assms(1)] by blast
qed

text \<open>
  The hypotheses of C10 hold for the path \<^verbatim>\<open>E5I\<close> and the sequence \<^verbatim>\<open>CGA\<close>.
\<close>

theorem scorer_lookups_defined_witness:
  "\<exists>v. calc_path_probability reference_model [''E'', ''5'', ''I''] [''C'', ''G'', ''A'']
      = Inr v"
  using scorer_lookups_defined [of "[''E'', ''5'', ''I'']" "[''C'', ''G'', ''A'']"]
  by simp

text \<open>
  Claim C8. For a valid model and a path over its states, the score is the sum over the
  positions of log transition plus log emission, and the log-probability of the
  transition to \<^verbatim>\<open>'End'\<close> is added exactly when the path ends in \<^verbatim>\<open>'I'\<close>.
\<close>

theorem end_term_only_after_intron:
  assumes "valid_model m" and "length states = length sequence"
    and "set states \<subseteq> set (hmm_states m)" and "set sequence \<subseteq> set (dna_bases m)"
  shows "calc_path_probability m states sequence =
           Inr (if states \<noteq> [] \<and> last states = ''I''
                then fadd (sum_log_terms m states sequence) (plog (tp m ''I'' ''End''))
                else sum_log_terms m states sequence)"
  unfolding log_sum_eq_sum_log_terms [OF assms(2), symmetric]
  by (rule calc_path_probability_valid [OF assms])

text \<open>
  C8 on the notebook's model, for a path that ends in \<^verbatim>\<open>'I'\<close> and one that does not.
\<close>

theorem end_term_only_after_intron_witness:
  "calc_path_probability reference_model [''E'', ''5'', ''I''] [''C'', ''G'', ''A''] =
     Inr (fadd (sum_log_terms reference_model [''E'', ''5'', ''I''] [''C'', ''G'', ''A''])
               (plog (tp reference_model ''I'' ''End''))) \<and>
   calc_path_probability reference_model [''E'', ''E'', ''5''] [''C'', ''G'', ''A''] =
     Inr (sum_log_terms reference_model [''E'', ''E'', ''5''] [''C'', ''G'', ''A''])"
  using
    end_term_only_after_intron [OF reference_model_valid,
      of "[''E'', ''5'', ''I'']" "[''C'', ''G'', ''A'']"]
    end_term_only_after_intron [OF reference_model_valid,
      of "[''E'', ''E'', ''5'']" "[''C'', ''G'', ''A'']"]
  by (simp add: reference_states reference_bases)

section \<open>The decoder fills its tables\<close>

lemma foldM_append:
  "foldM f (xs @ ys) s = ebind (foldM f xs s) (foldM f ys)"
  by (induction xs arbitrary: s) (auto split: sum.splits)

lemma inner_loop_valid:
  assumes "valid_model m" and "current \<in> set (hmm_states m)"
    and "dna_seq ! pos \<in> set (dna_bases m)"
    and "\<And>p. p \<in> set (hmm_states m) \<Longrightarrow> map_of (dp_table ! (pos - 1)) p = Some (V p)"
  shows "set ss \<subseteq> set (hmm_states m) \<Longrightarrow>
         foldM (inner_step m dna_seq dp_table pos current) ss best =
           Inr (fold (best_step m V current (dna_seq ! pos)) ss best)"
proof (induction ss arbitrary: best)
  case Nil
  then show ?case by simp
next
  case (Cons p ss)
  from Cons.prems have p: "p \<in> set (hmm_states m)" by simp
  then have p': "p \<in> set (''Start'' # hmm_states m)" by simp
  from assms(2) have c: "current \<in> set (hmm_states m @ [''End''])" by simp
  from valid_trans [OF assms(1) p' c] obtain row where
    row: "trans_probs m p = Some row" "row current = Some (tp m p current)"
    by blast
  from valid_emit [OF assms(1,2,3)] obtain erow where
    erow: "emit_probs m current = Some erow"
      "erow (dna_seq ! pos) = Some (ep m current (dna_seq ! pos))"
    by blast
  obtain bp bv where best: "best = (bp, bv)" by (cases best)
  have step: "inner_step m dna_seq dp_table pos current p best =
      Inr (best_step m V current (dna_seq ! pos) p best)"
    using assms(4) [OF p]
    by (simp add: inner_step_def best_step_def best getitem_Some row erow Let_def)
  from Cons.prems show ?case
    by (simp add: step Cons.IH)
qed

lemma fill_cell_valid:
  assumes "valid_model m" and "current \<in> set (hmm_states m)"
    and "dna_seq ! pos \<in> set (dna_bases m)"
    and "\<And>p. p \<in> set (hmm_states m) \<Longrightarrow> map_of (dp_table ! (pos - 1)) p = Some (V p)"
  shows "fill_cell m dna_seq pos current (dp_table, backtrack) =
     Inr (dp_table[pos := AList.update current
                     (fst (best_pred m V current (dna_seq ! pos))) (dp_table ! pos)],
          backtrack[pos := AList.update current
                     (snd (best_pred m V current (dna_seq ! pos))) (backtrack ! pos)])"
proof -
  have "foldM (inner_step m dna_seq dp_table pos current) (hmm_states m) (0, None) =
      Inr (best_pred m V current (dna_seq ! pos))"
    unfolding best_pred_def
    by (rule inner_loop_valid [OF assms]) simp_all
  then show ?thesis
    by (simp add: fill_cell_def split_beta)
qed

lemma fill_loop_valid:
  assumes "valid_model m" and "dna_seq ! pos \<in> set (dna_bases m)" and "1 \<le> pos"
    and "pos < length dp_table" and "pos < length backtrack"
  shows "set cs \<subseteq> set (hmm_states m) \<Longrightarrow>
    (\<And>p. p \<in> set (hmm_states m) \<Longrightarrow> map_of (dp_table ! (pos - 1)) p = Some (V p)) \<Longrightarrow>
    pos < length dp_table \<Longrightarrow> pos < length backtrack \<Longrightarrow>
    foldM (fill_cell m dna_seq pos) cs (dp_table, backtrack) =
     Inr (dp_table[pos := fold (\<lambda>c. AList.update c (fst (best_pred m V c (dna_seq ! pos))))
                            cs (dp_table ! pos)],
          backtrack[pos := fold (\<lambda>c. AList.update c (snd (best_pred m V c (dna_seq ! pos))))
                            cs (backtrack ! pos)])"
proof (induction cs arbitrary: dp_table backtrack)
  case Nil
  then show ?case by simp
next
  case (Cons c cs)
  from Cons.prems have c: "c \<in> set (hmm_states m)" by simp
  let ?dp = "dp_table[pos := AList.update c (fst (best_pred m V c (dna_seq ! pos)))
                (dp_table ! pos)]"
  let ?bt = "backtrack[pos := AList.update c (snd (best_pred m V c (dna_seq ! pos)))
                (backtrack ! pos)]"
  have step: "fill_cell m dna_seq pos c (dp_table, backtrack) = Inr (?dp, ?bt)"
    by (rule fill_cell_valid [OF assms(1) c assms(2)]) (rule Cons.prems(2))
  have prev: "?dp ! (pos - 1) = dp_table ! (pos - 1)"
    using assms(3) by simp
  have rest: "foldM (fill_cell m dna_seq pos) cs (?dp, ?bt) =
     Inr (?dp[pos := fold (\<lambda>c. AList.update c (fst (best_pred m V c (dna_seq ! pos))))
                            cs (?dp ! pos)],
          ?bt[pos := fold (\<lambda>c. AList.update c (snd (best_pred m V c (dna_seq ! pos))))
                            cs (?bt ! pos)])"
    using Cons.prems unfolding prev [symmetric] by (intro Cons.IH) simp_all
  show ?case
    using Cons.prems(3,4) by (simp add: step rest)
qed

lemma build_alist:
  "distinct (done @ cs) \<Longrightarrow>
   fold (\<lambda>c. AList.update c (f c)) cs (map (\<lambda>s. (s, f s)) done) =
     map (\<lambda>s. (s, f s)) (done @ cs)"
proof (induction cs arbitrary: "done")
  case Nil
  then show ?case by simp
next
  case (Cons c cs)
  have upd: "AList.update c v (map (\<lambda>s. (s, f s)) xs) = map (\<lambda>s. (s, f s)) xs @ [(c, v)]"
    if "c \<notin> set xs" for xs v
    using that by (induction xs) auto
  from Cons.prems have c: "c \<notin> set done" and d: "distinct ((done @ [c]) @ cs)"
    by auto
  show ?case
    using Cons.IH [OF d] by (simp add: upd [OF c])
qed

lemma build_alist_all:
  "distinct cs \<Longrightarrow> fold (\<lambda>c. AList.update c (f c)) cs [] = map (\<lambda>s. (s, f s)) cs"
  using build_alist [of "[]" cs f] by simp

lemma map_of_col: "p \<in> set cs \<Longrightarrow> map_of (map (\<lambda>s. (s, f s)) cs) p = Some (f p)"
  by (induction cs) auto

lemma dp_at_nth:
  "j < length dna_seq \<Longrightarrow>
   dp_at m dna_seq k ! j = (if j < k then dp_col m dna_seq j else [])"
  by (simp add: dp_at_def)

lemma bt_at_nth:
  "j < length dna_seq \<Longrightarrow>
   bt_at m dna_seq k ! j = (if 1 \<le> j \<and> j < k then bt_col m dna_seq j else [])"
  by (simp add: bt_at_def)

lemma length_dp_at [simp]: "length (dp_at m dna_seq k) = length dna_seq"
  by (simp add: dp_at_def)

lemma length_bt_at [simp]: "length (bt_at m dna_seq k) = length dna_seq"
  by (simp add: bt_at_def)

lemma dp_at_step:
  "k < length dna_seq \<Longrightarrow>
   (dp_at m dna_seq k)[k := dp_col m dna_seq k] = dp_at m dna_seq (Suc k)"
  by (rule nth_equalityI) (auto simp: dp_at_nth nth_list_update)

lemma bt_at_step:
  "1 \<le> k \<Longrightarrow> k < length dna_seq \<Longrightarrow>
   (bt_at m dna_seq k)[k := bt_col m dna_seq k] = bt_at m dna_seq (Suc k)"
  by (rule nth_equalityI) (auto simp: bt_at_nth nth_list_update)

lemma fill_pos_valid:
  assumes "valid_model m" and "set dna_seq \<subseteq> set (dna_bases m)"
    and "1 \<le> k" and "k < length dna_seq"
  shows "fill_pos m dna_seq k (dp_at m dna_seq k, bt_at m dna_seq k) =
           Inr (dp_at m dna_seq (Suc k), bt_at m dna_seq (Suc k))"
proof -
  from assms(3) obtain j where k: "k = Suc j" by (cases k) simp_all
  from assms(1) have dist: "distinct (hmm_states m)" by (simp add: valid_model_def)
  from assms(2,4) have base: "dna_seq ! k \<in> set (dna_bases m)"
    using nth_mem by blast
  have prev: "map_of (dp_at m dna_seq k ! (k - 1)) p = Some (vit m dna_seq j p)"
    if "p \<in> set (hmm_states m)" for p
    using assms(4) that by (simp add: k dp_at_nth dp_col_def map_of_col)
  have dp_new: "map (\<lambda>s. (s, fst (best_pred m (vit m dna_seq j) s (dna_seq ! k))))
      (hmm_states m) = dp_col m dna_seq k"
    by (simp add: dp_col_def k)
  have bt_new: "map (\<lambda>s. (s, snd (best_pred m (vit m dna_seq j) s (dna_seq ! k))))
      (hmm_states m) = bt_col m dna_seq k"
    by (simp add: bt_col_def bptr_def k)
  have "fill_pos m dna_seq k (dp_at m dna_seq k, bt_at m dna_seq k) =
     Inr ((dp_at m dna_seq k)[k := fold (\<lambda>c. AList.update c
              (fst (best_pred m (vit m dna_seq j) c (dna_seq ! k))))
              (hmm_states m) (dp_at m dna_seq k ! k)],
          (bt_at m dna_seq k)[k := fold (\<lambda>c. AList.update c
              (snd (best_pred m (vit m dna_seq j) c (dna_seq ! k))))
              (hmm_states m) (bt_at m dna_seq k ! k)])"
    unfolding fill_pos_def
    using assms(4) prev
    by (intro fill_loop_valid [OF assms(1) base assms(3)]) simp_all
  also have "dp_at m dna_seq k ! k = []"
    using assms(4) by (simp add: dp_at_nth)
  also have "bt_at m dna_seq k ! k = []"
    using assms(4) by (simp add: bt_at_nth)
  finally show ?thesis
    unfolding build_alist_all [OF dist] dp_new bt_new
    using assms(3,4) by (simp add: dp_at_step bt_at_step)
qed

lemma fill_all_valid:
  assumes "valid_model m" and "set dna_seq \<subseteq> set (dna_bases m)"
  shows "1 \<le> k \<Longrightarrow> k \<le> length dna_seq \<Longrightarrow>
         foldM (fill_pos m dna_seq) [1..<k] (dp_at m dna_seq 1, bt_at m dna_seq 1) =
           Inr (dp_at m dna_seq k, bt_at m dna_seq k)"
proof (induction k)
  case 0
  then show ?case by simp
next
  case (Suc k)
  show ?case
  proof (cases "k = 0")
    case True
    then show ?thesis by simp
  next
    case False
    then have k: "1 \<le> k" "k < length dna_seq" "k \<le> length dna_seq"
      using Suc.prems by simp_all
    have "[1..<Suc k] = [1..<k] @ [k]" using k(1) by simp
    then show ?thesis
      using Suc.IH [OF k(1,3)] fill_pos_valid [OF assms k(1,2)]
      by (simp add: foldM_append)
  qed
qed

lemma init_loop_valid:
  assumes "valid_model m" and "dna_seq \<noteq> []" and "dna_seq ! 0 \<in> set (dna_bases m)"
  shows "set cs \<subseteq> set (hmm_states m) \<Longrightarrow> dp_table \<noteq> [] \<Longrightarrow>
    foldM (init_step m dna_seq) cs dp_table =
      Inr (dp_table[0 := fold (\<lambda>c. AList.update c (sp m c * ep m c (dna_seq ! 0)))
                           cs (dp_table ! 0)])"
proof (induction cs arbitrary: dp_table)
  case Nil
  then show ?case by simp
next
  case (Cons c cs)
  from Cons.prems have c: "c \<in> set (hmm_states m)" by simp
  from valid_emit [OF assms(1) c assms(3)] obtain erow where
    erow: "emit_probs m c = Some erow" "erow (dna_seq ! 0) = Some (ep m c (dna_seq ! 0))"
    by blast
  have step: "init_step m dna_seq c dp_table =
      Inr (dp_table[0 := AList.update c (sp m c * ep m c (dna_seq ! 0)) (dp_table ! 0)])"
    using assms(2) Cons.prems(2) valid_start [OF assms(1) c]
    by (simp add: init_step_def getitem_Some erow py_index_def)
  from Cons.prems show ?case
    by (simp add: step Cons.IH)
qed

lemma init_valid:
  assumes "valid_model m" and "dna_seq \<noteq> []" and "set dna_seq \<subseteq> set (dna_bases m)"
  shows "foldM (init_step m dna_seq) (hmm_states m) (replicate (length dna_seq) []) =
           Inr (dp_at m dna_seq 1)"
proof -
  from assms(1) have dist: "distinct (hmm_states m)" by (simp add: valid_model_def)
  from assms(2,3) have base: "dna_seq ! 0 \<in> set (dna_bases m)"
    by (cases dna_seq) simp_all
  have "(replicate (length dna_seq) [])[0 := dp_col m dna_seq 0] = dp_at m dna_seq 1"
    using assms(2) by (intro nth_equalityI) (auto simp: dp_at_nth nth_list_update)
  then show ?thesis
    using assms(2)
    by (simp add: init_loop_valid [OF assms(1,2) base] build_alist_all [OF dist] dp_col_def)
qed

lemma bt_at_1: "bt_at m dna_seq 1 = replicate (length dna_seq) []"
  by (rule nth_equalityI) (auto simp: bt_at_nth)

section \<open>Best predecessors, the final state and the traceback\<close>

lemma best_fold:
  "fst best \<le> fst (fold (best_step m V c b) ss best) \<and>
   (\<forall>p \<in> set ss. V p * tp m p c * ep m c b \<le> fst (fold (best_step m V c b) ss best)) \<and>
   (fold (best_step m V c b) ss best = best \<or>
    (\<exists>p \<in> set ss. fold (best_step m V c b) ss best = (V p * tp m p c * ep m c b, Some p)))"
proof (induction ss arbitrary: best)
  case Nil
  then show ?case by simp
next
  case (Cons x ss)
  let ?b = "best_step m V c b x best"
  let ?r = "fold (best_step m V c b) ss ?b"
  note IH = Cons.IH [of ?b]
  have b1: "fst best \<le> fst ?b" and b2: "V x * tp m x c * ep m c b \<le> fst ?b"
    and b3: "?b = best \<or> ?b = (V x * tp m x c * ep m c b, Some x)"
    by (simp_all add: best_step_def Let_def)
  from IH b1 have "fst best \<le> fst ?r" by linarith
  moreover from IH b2 have "\<forall>p \<in> set (x # ss). V p * tp m p c * ep m c b \<le> fst ?r"
    by auto
  moreover from IH b3 have "?r = best \<or>
      (\<exists>p \<in> set (x # ss). ?r = (V p * tp m p c * ep m c b, Some p))"
    by auto
  ultimately show ?case by simp
qed


lemma best_pred_nonneg: "0 \<le> fst (best_pred m V c b)"
  using best_fold [of "(0, None)" m V c b "hmm_states m"] by (simp add: best_pred_def)

lemma best_pred_pos:
  assumes "0 < fst (best_pred m V c b)"
  shows "\<exists>p \<in> set (hmm_states m). best_pred m V c b = (V p * tp m p c * ep m c b, Some p)"
proof -
  from best_fold [of "(0, None)" m V c b "hmm_states m"]
  have "best_pred m V c b = (0, None) \<or>
      (\<exists>p \<in> set (hmm_states m). best_pred m V c b = (V p * tp m p c * ep m c b, Some p))"
    by (simp add: best_pred_def)
  with assms show ?thesis by auto
qed

lemma fold_max_step:
  "fold max_step rest kv \<in> set (kv # rest) \<and>
   (\<forall>x \<in> set (kv # rest). snd x \<le> snd (fold max_step rest kv))"
proof (induction rest arbitrary: kv)
  case Nil
  then show ?case by simp
next
  case (Cons y rest)
  let ?k = "max_step y kv"
  note IH = Cons.IH [of ?k]
  have k: "?k = kv \<or> ?k = y" and k1: "snd kv \<le> snd ?k" and k2: "snd y \<le> snd ?k"
    by (simp_all add: max_step_def)
  from IH k have "fold max_step rest ?k \<in> set (kv # y # rest)" by auto
  moreover from IH k1 k2
  have "\<forall>x \<in> set (kv # y # rest). snd x \<le> snd (fold max_step rest ?k)"
    by auto
  ultimately show ?case by simp
qed

lemma final_state_max:
  assumes "hmm_states m \<noteq> []"
  shows "final_state m dna_seq \<in> set (hmm_states m) \<and>
         (\<forall>s \<in> set (hmm_states m).
            vit m dna_seq (length dna_seq - 1) s
              \<le> vit m dna_seq (length dna_seq - 1) (final_state m dna_seq))"
proof -
  let ?d = "dp_col m dna_seq (length dna_seq - 1)"
  let ?V = "vit m dna_seq (length dna_seq - 1)"
  let ?r = "fold max_step (tl ?d) (hd ?d)"
  from assms have d: "?d \<noteq> []" by (simp add: dp_col_def)
  then have split: "hd ?d # tl ?d = ?d" by simp
  from fold_max_step [of "tl ?d" "hd ?d"]
  have mem: "?r \<in> set ?d" and mx: "\<forall>x \<in> set ?d. snd x \<le> snd ?r"
    unfolding split by blast+
  from mem obtain f where f: "f \<in> set (hmm_states m)" "?r = (f, ?V f)"
    by (auto simp: dp_col_def)
  have fin: "final_state m dna_seq = f"
    using f(2) by (simp add: final_state_def Let_def)
  have "\<forall>s \<in> set (hmm_states m). ?V s \<le> ?V f"
  proof
    fix s assume "s \<in> set (hmm_states m)"
    then have "(s, ?V s) \<in> set ?d" by (auto simp: dp_col_def)
    with mx f(2) show "?V s \<le> ?V f" by fastforce
  qed
  with f(1) fin show ?thesis by simp
qed

lemma py_max_key_col:
  assumes "hmm_states m \<noteq> []"
  shows "py_max_key (dp_col m dna_seq (length dna_seq - 1)) = Inr (final_state m dna_seq)"
proof -
  from assms have "dp_col m dna_seq (length dna_seq - 1) \<noteq> []" by (simp add: dp_col_def)
  then show ?thesis
    by (cases "dp_col m dna_seq (length dna_seq - 1)")
       (simp_all add: py_max_key_def final_state_def)
qed

lemma vit_Suc_pos:
  assumes "valid_model m" and "s \<in> set (hmm_states m)"
    and "dna_seq ! Suc k \<in> set (dna_bases m)" and "0 < vit m dna_seq (Suc k) s"
  shows "\<exists>p \<in> set (hmm_states m). bptr m dna_seq (Suc k) s = Some p \<and>
           vit m dna_seq (Suc k) s =
             vit m dna_seq k p * tp m p s * ep m s (dna_seq ! Suc k) \<and>
           0 < vit m dna_seq k p"
proof -
  let ?b = "dna_seq ! Suc k"
  from assms(4) have "0 < fst (best_pred m (vit m dna_seq k) s ?b)" by simp
  from best_pred_pos [OF this] obtain p where p: "p \<in> set (hmm_states m)"
    and bp: "best_pred m (vit m dna_seq k) s ?b =
      (vit m dna_seq k p * tp m p s * ep m s ?b, Some p)"
    by blast
  from p have p': "p \<in> set (''Start'' # hmm_states m)" by simp
  from assms(2) have s': "s \<in> set (hmm_states m @ [''End''])" by simp
  from valid_trans [OF assms(1) p' s'] have t: "0 \<le> tp m p s" by blast
  from valid_emit [OF assms(1,2,3)] have e: "0 \<le> ep m s ?b" by blast
  from bp have eq: "vit m dna_seq (Suc k) s = vit m dna_seq k p * tp m p s * ep m s ?b"
    by simp
  have pos: "0 < vit m dna_seq k p * (tp m p s * ep m s ?b)"
    using assms(4) eq by (simp add: mult.assoc)
  from t e have "0 \<le> tp m p s * ep m s ?b" by simp
  with pos have "0 < vit m dna_seq k p"
    by (metis less_eq_real_def mult_zero_right not_less zero_less_mult_iff
          zero_less_mult_pos2)
  with p bp eq show ?thesis by (auto simp: bptr_def)
qed

lemma traced_nonempty [simp]: "traced m dna_seq k s \<noteq> []"
  by (cases k) simp_all

lemma traceback_valid:
  assumes "valid_model m" and "set dna_seq \<subseteq> set (dna_bases m)"
  shows "k < length dna_seq \<Longrightarrow> s \<in> set (hmm_states m) \<Longrightarrow> 0 < vit m dna_seq k s \<Longrightarrow>
    foldM (trace_step (bt_at m dna_seq (length dna_seq))) (rev [1..<Suc k])
        (Some s, Some s # rest) =
      Inr (Some (hd (traced m dna_seq k s)), map Some (traced m dna_seq k s) @ rest)"
proof (induction k arbitrary: s rest)
  case 0
  then show ?case by simp
next
  case (Suc k)
  from Suc.prems(1) assms(2) have base: "dna_seq ! Suc k \<in> set (dna_bases m)"
    using nth_mem by blast
  from vit_Suc_pos [OF assms(1) Suc.prems(2) base Suc.prems(3)] obtain p where
    p: "p \<in> set (hmm_states m)" "bptr m dna_seq (Suc k) s = Some p" "0 < vit m dna_seq k p"
    by blast
  have step: "trace_step (bt_at m dna_seq (length dna_seq)) (Suc k) (Some s, Some s # rest) =
      Inr (Some p, Some p # Some s # rest)"
    using Suc.prems(1,2) p(2)
    by (simp add: trace_step_def getitem_opt_def bt_at_nth bt_col_def map_of_col getitem_Some)
  have k: "k < length dna_seq" using Suc.prems(1) by simp
  have rv: "rev [1..<Suc (Suc k)] = Suc k # rev [1..<Suc k]" by simp
  show ?case
    unfolding rv
    using Suc.IH [OF k p(1,3), of "Some s # rest"] p(2)
    by (simp add: step)
qed





section \<open>The decoded path\<close>

lemma py_index_last:
  assumes "xs \<noteq> []"
  shows "py_index xs (int (length xs) - 1) = Inr (xs ! (length xs - 1))"
proof -
  from assms have pos: "0 < length xs" by simp
  then have "nat (int (length xs) - 1) = length xs - 1" by arith
  with pos show ?thesis
    by (simp add: py_index_def Let_def)
qed

lemma decode_valid:
  assumes "valid_model m" and "dna_seq \<noteq> []" and "set dna_seq \<subseteq> set (dna_bases m)"
    and "0 < vit m dna_seq (length dna_seq - 1) (final_state m dna_seq)"
  shows "find_best_path m dna_seq =
           Inr (map Some (traced m dna_seq (length dna_seq - 1) (final_state m dna_seq)))"
proof -
  let ?n = "length dna_seq"
  from assms(1) have ne: "hmm_states m \<noteq> []" by (simp add: valid_model_def)
  from assms(2) have n: "1 \<le> ?n" "?n - 1 < ?n" "Suc (?n - 1) = ?n"
    by (simp_all add: Suc_leI)
  have init: "foldM (init_step m dna_seq) (hmm_states m) (replicate ?n []) =
      Inr (dp_at m dna_seq 1)"
    by (rule init_valid [OF assms(1,2,3)])
  have fill: "foldM (fill_pos m dna_seq) [1..<?n] (dp_at m dna_seq 1, replicate ?n []) =
      Inr (dp_at m dna_seq ?n, bt_at m dna_seq ?n)"
    unfolding bt_at_1 [of m dna_seq, symmetric]
    by (rule fill_all_valid [OF assms(1,3) n(1) order_refl])
  have idx: "py_index (dp_at m dna_seq ?n) (int ?n - 1) = Inr (dp_col m dna_seq (?n - 1))"
  proof -
    from assms(2) have "dp_at m dna_seq ?n \<noteq> []" by (simp add: dp_at_def)
    from py_index_last [OF this] n(2) show ?thesis
      by (simp add: dp_at_nth)
  qed
  have mx: "py_max_key (dp_col m dna_seq (?n - 1)) = Inr (final_state m dna_seq)"
    by (rule py_max_key_col [OF ne])
  from final_state_max [OF ne, of dna_seq]
  have fin: "final_state m dna_seq \<in> set (hmm_states m)" by blast
  have tr: "foldM (trace_step (bt_at m dna_seq ?n)) (rev [1..<?n])
      (Some (final_state m dna_seq), [Some (final_state m dna_seq)]) =
    Inr (Some (hd (traced m dna_seq (?n - 1) (final_state m dna_seq))),
         map Some (traced m dna_seq (?n - 1) (final_state m dna_seq)) @ [])"
    using traceback_valid [OF assms(1,3) n(2) fin assms(4), of "[]"]
    unfolding n(3) .
  show ?thesis
    unfolding find_best_path_def Let_def init ebind_Inr fill prod.case idx mx tr
    by simp
qed

lemma path_prob_nonneg:
  assumes "valid_model m" and "length q = length bs"
  shows "prev \<in> set (''Start'' # hmm_states m) \<Longrightarrow> set q \<subseteq> set (hmm_states m) \<Longrightarrow>
         set bs \<subseteq> set (dna_bases m) \<Longrightarrow> 0 \<le> path_prob m prev q bs"
  using assms(2)
proof (induction q bs arbitrary: prev rule: list_induct2)
  case Nil
  then show ?case by simp
next
  case (Cons s q b bs)
  from Cons.prems have s: "s \<in> set (hmm_states m)" and b: "b \<in> set (dna_bases m)"
    by simp_all
  from s have s': "s \<in> set (hmm_states m @ [''End''])" by simp
  from valid_trans [OF assms(1) Cons.prems(1) s'] have t: "0 \<le> tp m prev s" by blast
  from valid_emit [OF assms(1) s b] have e: "0 \<le> ep m s b" by blast
  have "0 \<le> path_prob m s q bs"
    using Cons.prems s by (intro Cons.IH) simp_all
  with t e show ?case by simp
qed


lemma plog_mult: "0 \<le> a \<Longrightarrow> 0 \<le> b \<Longrightarrow> fadd (plog a) (plog b) = plog (a * b)"
  by (simp add: plog_def ln_mult)


lemma log_sum_plog:
  assumes "valid_model m" and "length q = length bs"
  shows "prev \<in> set (''Start'' # hmm_states m) \<Longrightarrow> set q \<subseteq> set (hmm_states m) \<Longrightarrow>
         set bs \<subseteq> set (dna_bases m) \<Longrightarrow>
         log_sum m prev q bs = plog (path_prob m prev q bs)"
  using assms(2)
proof (induction q bs arbitrary: prev rule: list_induct2)
  case Nil
  then show ?case by (simp add: plog_def)
next
  case (Cons s q b bs)
  from Cons.prems have s: "s \<in> set (hmm_states m)" and b: "b \<in> set (dna_bases m)"
    and q: "set q \<subseteq> set (hmm_states m)" and bs: "set bs \<subseteq> set (dna_bases m)"
    by simp_all
  from s have s': "s \<in> set (hmm_states m @ [''End'']) " and s'': "s \<in> set (''Start'' # hmm_states m)"
    by simp_all
  from valid_trans [OF assms(1) Cons.prems(1) s'] have t: "0 \<le> tp m prev s" by blast
  from valid_emit [OF assms(1) s b] have e: "0 \<le> ep m s b" by blast
  have r: "0 \<le> path_prob m s q bs"
    by (rule path_prob_nonneg [OF assms(1) Cons.hyps s'' q bs])
  have IH: "log_sum m s q bs = plog (path_prob m s q bs)"
    by (rule Cons.IH [OF s'' q bs])
  from t e r show ?case
    by (simp add: IH plog_mult)
qed



section \<open>Bounds on the exponential\<close>

lemma exp_double_le:
  fixes x c d :: real
  assumes "exp x \<le> c" and "c * c \<le> d"
  shows "exp (2 * x) \<le> d"
proof -
  have "exp (2 * x) = exp x * exp x"
    by (simp add: exp_double power2_eq_square)
  also have "\<dots> \<le> c * c"
  proof -
    have "0 \<le> c" using assms(1) exp_ge_zero [of x] by linarith
    with assms(1) show ?thesis by (intro mult_mono) simp_all
  qed
  finally show ?thesis using assms(2) by simp
qed

lemma exp_double_ge:
  fixes x c d :: real
  assumes "c \<le> exp x" and "0 \<le> c" and "d \<le> c * c"
  shows "d \<le> exp (2 * x)"
proof -
  have "c * c \<le> exp x * exp x"
    using assms(1,2) by (intro mult_mono) simp_all
  also have "\<dots> = exp (2 * x)"
    by (simp add: exp_double power2_eq_square)
  finally show ?thesis using assms(3) by simp
qed

lemma exp_41215_upper: "exp (41215 / 1000) < ((134217728000000000000000000000000000000000 / 168395824273397520822651)::real)"
proof -
  have u0: "exp (8243 / 209715200 :: real) \<le> 62502456701993 / 62500000000000"
    by (rule order_trans [OF exp_bound]) (simp_all add: power2_eq_square)
  have u1: "exp (8243 / 104857600 :: real) \<le> 200015723201767 / 200000000000000"
    using exp_double_le [OF u0, of "200015723201767 / 200000000000000"] by simp
  have u2: "exp (8243 / 52428800 :: real) \<le> 1000157238198147 / 1000000000000000"
    using exp_double_le [OF u1, of "1000157238198147 / 1000000000000000"] by simp
  have u3: "exp (8243 / 26214400 :: real) \<le> 200062900224029 / 200000000000000"
    using exp_double_le [OF u2, of "200062900224029 / 200000000000000"] by simp
  have u4: "exp (8243 / 13107200 :: real) \<le> 200125820230249 / 200000000000000"
    using exp_double_le [OF u3, of "200125820230249 / 200000000000000"] by simp
  have u5: "exp (8243 / 6553600 :: real) \<le> 1001258598070749 / 1000000000000000"
    using exp_double_le [OF u4, of "1001258598070749 / 1000000000000000"] by simp
  have u6: "exp (8243 / 3276800 :: real) \<le> 501259390105301 / 500000000000000"
    using exp_double_le [OF u5, of "501259390105301 / 500000000000000"] by simp
  have u7: "exp (8243 / 1638400 :: real) \<le> 502521952337477 / 500000000000000"
    using exp_double_le [OF u6, of "502521952337477 / 500000000000000"] by simp
  have u8: "exp (8243 / 819200 :: real) \<le> 1010113250324279 / 1000000000000000"
    using exp_double_le [OF u7, of "1010113250324279 / 1000000000000000"] by simp
  have u9: "exp (8243 / 409600 :: real) \<le> 25508219462017 / 25000000000000"
    using exp_double_le [OF u8, of "25508219462017 / 25000000000000"] by simp
  have u10: "exp (8243 / 204800 :: real) \<le> 1041070816195877 / 1000000000000000"
    using exp_double_le [OF u9, of "1041070816195877 / 1000000000000000"] by simp
  have u11: "exp (8243 / 102400 :: real) \<le> 4335313777339 / 4000000000000"
    using exp_double_le [OF u10, of "4335313777339 / 4000000000000"] by simp
  have u12: "exp (8243 / 51200 :: real) \<le> 234936819349817 / 200000000000000"
    using exp_double_le [OF u11, of "234936819349817 / 200000000000000"] by simp
  have u13: "exp (8243 / 25600 :: real) \<le> 689941363577607 / 500000000000000"
    using exp_double_le [OF u12, of "689941363577607 / 500000000000000"] by simp
  have u14: "exp (8243 / 12800 :: real) \<le> 1904076340701311 / 1000000000000000"
    using exp_double_le [OF u13, of "1904076340701311 / 1000000000000000"] by simp
  have u15: "exp (8243 / 6400 :: real) \<le> 725101342243699 / 200000000000000"
    using exp_double_le [OF u14, of "725101342243699 / 200000000000000"] by simp
  have u16: "exp (8243 / 3200 :: real) \<le> 262885978261807 / 20000000000000"
    using exp_double_le [OF u15, of "262885978261807 / 20000000000000"] by simp
  have u17: "exp (8243 / 1600 :: real) \<le> 863862969583341 / 5000000000000"
    using exp_double_le [OF u16, of "863862969583341 / 5000000000000"] by simp
  have u18: "exp (8243 / 800 :: real) \<le> 1492518460434697 / 50000000000"
    using exp_double_le [OF u17, of "1492518460434697 / 50000000000"] by simp
  have u19: "exp (8243 / 400 :: real) \<le> 8910445418953433 / 10000000"
    using exp_double_le [OF u18, of "8910445418953433 / 10000000"] by simp
  have u20: "exp (8243 / 200 :: real) \<le> 793960375641482300"
    using exp_double_le [OF u19, of "793960375641482300"] by simp
  from u20 show ?thesis by simp
qed

lemma exp_41225_lower: "((134217728000000000000000000000000000000000 / 168395824273397520822651)::real) \<le> exp (41225 / 1000)"
proof -
  have l0: "1010115346331149 / 1000000000000000 \<le> exp (1649 / 163840 :: real)"
    by (rule order_trans [OF _ exp_lower_Taylor_quadratic]) (simp_all add: power2_eq_square)
  have l1: "1020333012893697 / 1000000000000000 \<le> exp (1649 / 81920 :: real)"
    using exp_double_ge [OF l0, of "1020333012893697 / 1000000000000000"] by simp
  have l2: "1041079457200729 / 1000000000000000 \<le> exp (1649 / 40960 :: real)"
    using exp_double_ge [OF l1, of "1041079457200729 / 1000000000000000"] by simp
  have l3: "270961609051341 / 250000000000000 \<le> exp (1649 / 20480 :: real)"
    using exp_double_ge [OF l2, of "270961609051341 / 250000000000000"] by simp
  have l4: "293680774318767 / 250000000000000 \<le> exp (1649 / 10240 :: real)"
    using exp_double_ge [OF l3, of "293680774318767 / 250000000000000"] by simp
  have l5: "172496794408941 / 125000000000000 \<le> exp (1649 / 5120 :: real)"
    using exp_double_ge [OF l4, of "172496794408941 / 125000000000000"] by simp
  have l6: "1904329221207069 / 1000000000000000 \<le> exp (1649 / 2560 :: real)"
    using exp_double_ge [OF l5, of "1904329221207069 / 1000000000000000"] by simp
  have l7: "3626469782743121 / 1000000000000000 \<le> exp (1649 / 1280 :: real)"
    using exp_double_ge [OF l6, of "3626469782743121 / 1000000000000000"] by simp
  have l8: "1315128308514893 / 100000000000000 \<le> exp (1649 / 640 :: real)"
    using exp_double_ge [OF l7, of "1315128308514893 / 100000000000000"] by simp
  have l9: "1729562467857243 / 10000000000000 \<le> exp (1649 / 320 :: real)"
    using exp_double_ge [OF l8, of "1729562467857243 / 10000000000000"] by simp
  have l10: "747846582555109 / 25000000000 \<le> exp (1649 / 160 :: real)"
    using exp_double_ge [OF l9, of "747846582555109 / 25000000000"] by simp
  have l11: "8948392176629687 / 10000000 \<le> exp (1649 / 80 :: real)"
    using exp_double_ge [OF l10, of "8948392176629687 / 10000000"] by simp
  have l12: "800737225467673800 \<le> exp (1649 / 40 :: real)"
    using exp_double_ge [OF l11, of "800737225467673800"] by simp
  from l12 show ?thesis by simp
qed

section \<open>The score of the primer path\<close>

text \<open>
  Claim C3. With the notebook's tables, the score of the path
  \<^verbatim>\<open>EEEEEEEEEEEEEEEEEE5IIIIIII\<close> on the sequence \<^verbatim>\<open>CTTCATGTGAAAGCAGACGTAAGTCA\<close> is a
  finite number that rounds to -41.22 at two decimal places.
\<close>

theorem primer_path_score:
  "\<exists>v. calc_path_probability reference_model
          (chars ''EEEEEEEEEEEEEEEEEE5IIIIIII'') (chars ''CTTCATGTGAAAGCAGACGTAAGTCA'')
        = Inr (Fin v) \<and> round (v * 100) = - 4122"
proof -
  let ?p = "chars ''EEEEEEEEEEEEEEEEEE5IIIIIII''"
  let ?s = "chars ''CTTCATGTGAAAGCAGACGTAAGTCA''"
  let ?P = "168395824273397520822651 / 13421772800000000000000000000000000000000 :: real"
  let ?Q = "134217728000000000000000000000000000000000 / 168395824273397520822651 :: real"
  have len: "length ?p = length ?s" by (simp add: chars_def)
  have sub: "set ?p \<subseteq> set (hmm_states reference_model)"
    by (simp add: chars_def reference_states)
  have seq: "set ?s \<subseteq> set (dna_bases reference_model)"
    by (simp add: chars_def reference_bases)
  have last: "(?p \<noteq> [] \<and> last ?p = ''I'') = True" by (simp add: chars_def)
  have prob: "path_prob reference_model ''Start'' ?p ?s = ?P"
    by (simp add: chars_def tp_def ep_def reference_model_def)
  have "log_sum reference_model ''Start'' ?p ?s = plog ?P"
    using log_sum_plog [OF reference_model_valid len _ sub seq, of "''Start''"]
    by (simp only: prob) simp
  also have "\<dots> = Fin (ln ?P)" by (simp add: plog_def)
  finally have ls: "log_sum reference_model ''Start'' ?p ?s = Fin (ln ?P)" .
  have tend: "plog (tp reference_model ''I'' ''End'') = Fin (ln (1 / 10))"
    by (simp add: plog_def tp_def reference_model_def)
  have "ln ?P + ln (1 / 10 :: real) = ln (?P * (1 / 10))"
    by (rule ln_mult_pos [symmetric]) simp_all
  also have "?P * (1 / 10) = inverse ?Q" by simp
  also have "ln (inverse ?Q) = - ln ?Q" by (rule ln_inverse)
  finally have v: "ln ?P + ln (1 / 10 :: real) = - ln ?Q" .
  have score: "calc_path_probability reference_model ?p ?s = Inr (Fin (- ln ?Q))"
    unfolding calc_path_probability_valid [OF reference_model_valid len sub seq]
    by (simp only: last if_True ls tend fadd.simps v)
  have Qpos: "0 < ?Q" by simp
  have "exp (41215 / 1000) < exp (ln ?Q)"
    using exp_41215_upper by (simp only: exp_ln [OF Qpos])
  then have lo: "41215 / 1000 < ln ?Q" by (simp only: exp_less_cancel_iff)
  have "exp (ln ?Q) \<le> exp (41225 / 1000)"
    using exp_41225_lower by (simp only: exp_ln [OF Qpos])
  then have hi: "ln ?Q \<le> 41225 / 1000" by (simp only: exp_le_cancel_iff)
  have "round (- ln ?Q * 100) = - 4122"
    by (rule round_unique) (use lo hi in simp_all)
  with score show ?thesis by blast
qed

section \<open>The entries of the tables, and a sequence that no path can produce\<close>

lemmas decoder_defs =
  find_best_path_def ebind_def getitem_def getitem_opt_def py_index_def init_step_def
  inner_step_def fill_cell_def fill_pos_def max_step_def py_max_key_def trace_step_def
  chars_def

lemma reference_entries:
  "sp reference_model ''E'' = 1" "sp reference_model ''5'' = 0" "sp reference_model ''I'' = 0"
  "tp reference_model ''Start'' ''E'' = 1" "tp reference_model ''Start'' ''5'' = 0"
  "tp reference_model ''Start'' ''I'' = 0"
  "tp reference_model ''E'' ''E'' = 9 / 10" "tp reference_model ''E'' ''5'' = 1 / 10"
  "tp reference_model ''E'' ''I'' = 0"
  "tp reference_model ''5'' ''E'' = 0" "tp reference_model ''5'' ''5'' = 0"
  "tp reference_model ''5'' ''I'' = 1"
  "tp reference_model ''I'' ''E'' = 0" "tp reference_model ''I'' ''5'' = 0"
  "tp reference_model ''I'' ''I'' = 9 / 10"
  "ep reference_model ''E'' ''A'' = 1 / 4" "ep reference_model ''E'' ''C'' = 1 / 4"
  "ep reference_model ''E'' ''G'' = 1 / 4" "ep reference_model ''E'' ''T'' = 1 / 4"
  "ep reference_model ''5'' ''A'' = 1 / 20" "ep reference_model ''5'' ''C'' = 0"
  "ep reference_model ''5'' ''G'' = 19 / 20" "ep reference_model ''5'' ''T'' = 0"
  "ep reference_model ''I'' ''A'' = 2 / 5" "ep reference_model ''I'' ''C'' = 1 / 10"
  "ep reference_model ''I'' ''G'' = 1 / 10" "ep reference_model ''I'' ''T'' = 2 / 5"
  by (simp_all add: sp_def tp_def ep_def reference_model_def)

lemma reference_exon_emission:
  "b \<in> set (dna_bases reference_model) \<Longrightarrow> ep reference_model ''E'' b = 1 / 4"
  by (auto simp: reference_bases reference_entries)

lemma silent_model_valid: "valid_model silent_model"
  by (simp add: valid_model_def prob_row_def silent_model_def reference_model_def)

text \<open>
  Claim C2 says that the decoder returns a list of N states for every valid model and
  every sequence of length N. When no predecessor has a probability above 0.0 the
  variable \<^verbatim>\<open>best_prev\<close> keeps its initial \<^verbatim>\<open>None\<close>, and the traceback reads
  that backpointer. On the valid model \<open>silent_model\<close> the sequence \<^verbatim>\<open>CC\<close> gives a
  list whose first element is \<^verbatim>\<open>None\<close>, and \<^verbatim>\<open>CCC\<close> raises \<^verbatim>\<open>KeyError(None)\<close>.
\<close>

theorem backpointer_none:
  "find_best_path silent_model (chars ''CC'') = Inr [None, Some ''E''] \<and>
   find_best_path silent_model (chars ''CCC'') = Inl (KeyError None)"
  by (simp add: decoder_defs silent_model_def reference_model_def upt_rec)

section \<open>Decoding against scoring\<close>












section \<open>Decoding the primer sequence\<close>

lemma vit_pos:
  "0 < k \<Longrightarrow> vit m dna_seq k s = fst (best_pred m (vit m dna_seq (k - 1)) s (dna_seq ! k))"
  by (cases k) simp_all

lemma primer_nth:
  "primer_seq ! 0 = ''C''"
  "primer_seq ! Suc 0 = ''T''"
  "primer_seq ! 2 = ''T''"
  "primer_seq ! 3 = ''C''"
  "primer_seq ! 4 = ''A''"
  "primer_seq ! 5 = ''T''"
  "primer_seq ! 6 = ''G''"
  "primer_seq ! 7 = ''T''"
  "primer_seq ! 8 = ''G''"
  "primer_seq ! 9 = ''A''"
  "primer_seq ! 10 = ''A''"
  "primer_seq ! 11 = ''A''"
  "primer_seq ! 12 = ''G''"
  "primer_seq ! 13 = ''C''"
  "primer_seq ! 14 = ''A''"
  "primer_seq ! 15 = ''G''"
  "primer_seq ! 16 = ''A''"
  "primer_seq ! 17 = ''C''"
  "primer_seq ! 18 = ''G''"
  "primer_seq ! 19 = ''T''"
  "primer_seq ! 20 = ''A''"
  "primer_seq ! 21 = ''A''"
  "primer_seq ! 22 = ''G''"
  "primer_seq ! 23 = ''T''"
  "primer_seq ! 24 = ''C''"
  "primer_seq ! 25 = ''A''"
  by (simp_all add: primer_seq_def chars_def)

lemma primer_col_0:
  "vit reference_model primer_seq 0 ''E'' = 1 / 4"
  "vit reference_model primer_seq 0 ''5'' = 0"
  "vit reference_model primer_seq 0 ''I'' = 0"
  by (simp_all add: reference_entries primer_nth)

lemma primer_col_1:
  "vit reference_model primer_seq (Suc 0) ''E'' = 9 / 160"
  "vit reference_model primer_seq (Suc 0) ''5'' = 0"
  "vit reference_model primer_seq (Suc 0) ''I'' = 0"
  by (simp_all add: primer_col_0 best_pred_def best_step_def
        reference_states reference_entries primer_nth)

lemma primer_col_2:
  "vit reference_model primer_seq 2 ''E'' = 81 / 6400"
  "vit reference_model primer_seq 2 ''5'' = 0"
  "vit reference_model primer_seq 2 ''I'' = 0"
  by (simp_all add: vit_pos [of 2] primer_col_1 best_pred_def best_step_def
        reference_states reference_entries primer_nth)

lemma primer_col_3:
  "vit reference_model primer_seq 3 ''E'' = 729 / 256000"
  "vit reference_model primer_seq 3 ''5'' = 0"
  "vit reference_model primer_seq 3 ''I'' = 0"
  by (simp_all add: vit_pos [of 3] primer_col_2 best_pred_def best_step_def
        reference_states reference_entries primer_nth)

lemma primer_col_4:
  "vit reference_model primer_seq 4 ''E'' = 6561 / 10240000"
  "vit reference_model primer_seq 4 ''5'' = 729 / 51200000"
  "vit reference_model primer_seq 4 ''I'' = 0"
  by (simp_all add: vit_pos [of 4] primer_col_3 best_pred_def best_step_def
        reference_states reference_entries primer_nth)

lemma primer_col_5:
  "vit reference_model primer_seq 5 ''E'' = 59049 / 409600000"
  "vit reference_model primer_seq 5 ''5'' = 0"
  "vit reference_model primer_seq 5 ''I'' = 729 / 128000000"
  by (simp_all add: vit_pos [of 5] primer_col_4 best_pred_def best_step_def
        reference_states reference_entries primer_nth)

lemma primer_col_6:
  "vit reference_model primer_seq 6 ''E'' = 531441 / 16384000000"
  "vit reference_model primer_seq 6 ''5'' = 1121931 / 81920000000"
  "vit reference_model primer_seq 6 ''I'' = 6561 / 12800000000"
  by (simp_all add: vit_pos [of 6] primer_col_5 best_pred_def best_step_def
        reference_states reference_entries primer_nth)

lemma primer_col_7:
  "vit reference_model primer_seq 7 ''E'' = 4782969 / 655360000000"
  "vit reference_model primer_seq 7 ''5'' = 0"
  "vit reference_model primer_seq 7 ''I'' = 1121931 / 204800000000"
  by (simp_all add: vit_pos [of 7] primer_col_6 best_pred_def best_step_def
        reference_states reference_entries primer_nth)

lemma primer_col_8:
  "vit reference_model primer_seq 8 ''E'' = 43046721 / 26214400000000"
  "vit reference_model primer_seq 8 ''5'' = 90876411 / 131072000000000"
  "vit reference_model primer_seq 8 ''I'' = 10097379 / 20480000000000"
  by (simp_all add: vit_pos [of 8] primer_col_7 best_pred_def best_step_def
        reference_states reference_entries primer_nth)

lemma primer_col_9:
  "vit reference_model primer_seq 9 ''E'' = 387420489 / 1048576000000000"
  "vit reference_model primer_seq 9 ''5'' = 43046721 / 5242880000000000"
  "vit reference_model primer_seq 9 ''I'' = 90876411 / 327680000000000"
  by (simp_all add: vit_pos [of 9] primer_col_8 best_pred_def best_step_def
        reference_states reference_entries primer_nth)

lemma primer_col_10:
  "vit reference_model primer_seq 10 ''E'' = 3486784401 / 41943040000000000"
  "vit reference_model primer_seq 10 ''5'' = 387420489 / 209715200000000000"
  "vit reference_model primer_seq 10 ''I'' = 817887699 / 8192000000000000"
  by (simp_all add: vit_pos [of 10] primer_col_9 best_pred_def best_step_def
        reference_states reference_entries primer_nth)

lemma primer_col_11:
  "vit reference_model primer_seq 11 ''E'' = 31381059609 / 1677721600000000000"
  "vit reference_model primer_seq 11 ''5'' = 3486784401 / 8388608000000000000"
  "vit reference_model primer_seq 11 ''I'' = 7360989291 / 204800000000000000"
  by (simp_all add: vit_pos [of 11] primer_col_10 best_pred_def best_step_def
        reference_states reference_entries primer_nth)

lemma primer_col_12:
  "vit reference_model primer_seq 12 ''E'' = 282429536481 / 67108864000000000000"
  "vit reference_model primer_seq 12 ''5'' = 596240132571 / 335544320000000000000"
  "vit reference_model primer_seq 12 ''I'' = 66248903619 / 20480000000000000000"
  by (simp_all add: vit_pos [of 12] primer_col_11 best_pred_def best_step_def
        reference_states reference_entries primer_nth)

lemma primer_col_13:
  "vit reference_model primer_seq 13 ''E'' = 2541865828329 / 2684354560000000000000"
  "vit reference_model primer_seq 13 ''5'' = 0"
  "vit reference_model primer_seq 13 ''I'' = 596240132571 / 2048000000000000000000"
  by (simp_all add: vit_pos [of 13] primer_col_12 best_pred_def best_step_def
        reference_states reference_entries primer_nth)

lemma primer_col_14:
  "vit reference_model primer_seq 14 ''E'' = 22876792454961 / 107374182400000000000000"
  "vit reference_model primer_seq 14 ''5'' = 2541865828329 / 536870912000000000000000"
  "vit reference_model primer_seq 14 ''I'' = 5366161193139 / 51200000000000000000000"
  by (simp_all add: vit_pos [of 14] primer_col_13 best_pred_def best_step_def
        reference_states reference_entries primer_nth)

lemma primer_col_15:
  "vit reference_model primer_seq 15 ''E'' = 205891132094649 / 4294967296000000000000000"
  "vit reference_model primer_seq 15 ''5'' = 434659056644259 / 21474836480000000000000000"
  "vit reference_model primer_seq 15 ''I'' = 48295450738251 / 5120000000000000000000000"
  by (simp_all add: vit_pos [of 15] primer_col_14 best_pred_def best_step_def
        reference_states reference_entries primer_nth)

lemma primer_col_16:
  "vit reference_model primer_seq 16 ''E'' = 1853020188851841 / 171798691840000000000000000"
  "vit reference_model primer_seq 16 ''5'' = 205891132094649 / 858993459200000000000000000"
  "vit reference_model primer_seq 16 ''I'' = 434659056644259 / 53687091200000000000000000"
  by (simp_all add: vit_pos [of 16] primer_col_15 best_pred_def best_step_def
        reference_states reference_entries primer_nth)

lemma primer_col_17:
  "vit reference_model primer_seq 17 ''E'' = 16677181699666569 / 6871947673600000000000000000"
  "vit reference_model primer_seq 17 ''5'' = 0"
  "vit reference_model primer_seq 17 ''I'' = 3911931509798331 / 5368709120000000000000000000"
  by (simp_all add: vit_pos [of 17] primer_col_16 best_pred_def best_step_def
        reference_states reference_entries primer_nth)

lemma primer_col_18:
  "vit reference_model primer_seq 18 ''E'' = 150094635296999121 / 274877906944000000000000000000"
  "vit reference_model primer_seq 18 ''5'' = 316866452293664811 / 1374389534720000000000000000000"
  "vit reference_model primer_seq 18 ''I'' = 35207383588184979 / 536870912000000000000000000000"
  by (simp_all add: vit_pos [of 18] primer_col_17 best_pred_def best_step_def
        reference_states reference_entries primer_nth)

lemma primer_col_19:
  "vit reference_model primer_seq 19 ''E'' = 1350851717672992089 / 10995116277760000000000000000000"
  "vit reference_model primer_seq 19 ''5'' = 0"
  "vit reference_model primer_seq 19 ''I'' = 316866452293664811 / 3435973836800000000000000000000"
  by (simp_all add: vit_pos [of 19] primer_col_18 best_pred_def best_step_def
        reference_states reference_entries primer_nth)

lemma primer_col_20:
  "vit reference_model primer_seq 20 ''E'' = 12157665459056928801 / 439804651110400000000000000000000"
  "vit reference_model primer_seq 20 ''5'' = 1350851717672992089 / 2199023255552000000000000000000000"
  "vit reference_model primer_seq 20 ''I'' = 2851798070642983299 / 85899345920000000000000000000000"
  by (simp_all add: vit_pos [of 20] primer_col_19 best_pred_def best_step_def
        reference_states reference_entries primer_nth)

lemma primer_col_21:
  "vit reference_model primer_seq 21 ''E'' = 109418989131512359209 / 17592186044416000000000000000000000"
  "vit reference_model primer_seq 21 ''5'' = 12157665459056928801 / 87960930222080000000000000000000000"
  "vit reference_model primer_seq 21 ''I'' = 25666182635786849691 / 2147483648000000000000000000000000"
  by (simp_all add: vit_pos [of 21] primer_col_20 best_pred_def best_step_def
        reference_states reference_entries primer_nth)

lemma primer_col_22:
  "vit reference_model primer_seq 22 ''E'' = 984770902183611232881 / 703687441776640000000000000000000000"
  "vit reference_model primer_seq 22 ''5'' = 2078960793498734824971 / 3518437208883200000000000000000000000"
  "vit reference_model primer_seq 22 ''I'' = 230995643722081647219 / 214748364800000000000000000000000000"
  by (simp_all add: vit_pos [of 22] primer_col_21 best_pred_def best_step_def
        reference_states reference_entries primer_nth)

lemma primer_col_23:
  "vit reference_model primer_seq 23 ''E'' = 8862938119652501095929 / 28147497671065600000000000000000000000"
  "vit reference_model primer_seq 23 ''5'' = 0"
  "vit reference_model primer_seq 23 ''I'' = 2078960793498734824971 / 5368709120000000000000000000000000000"
  by (simp_all add: vit_pos [of 23] primer_col_22 best_pred_def best_step_def
        reference_states reference_entries primer_nth)

lemma primer_col_24:
  "vit reference_model primer_seq 24 ''E'' = 79766443076872509863361 / 1125899906842624000000000000000000000000"
  "vit reference_model primer_seq 24 ''5'' = 0"
  "vit reference_model primer_seq 24 ''I'' = 18710647141488613424739 / 536870912000000000000000000000000000000"
  by (simp_all add: vit_pos [of 24] primer_col_23 best_pred_def best_step_def
        reference_states reference_entries primer_nth)

lemma primer_col_25:
  "vit reference_model primer_seq 25 ''E'' = 717897987691852588770249 / 45035996273704960000000000000000000000000"
  "vit reference_model primer_seq 25 ''5'' = 79766443076872509863361 / 225179981368524800000000000000000000000000"
  "vit reference_model primer_seq 25 ''I'' = 168395824273397520822651 / 13421772800000000000000000000000000000000"
  by (simp_all add: vit_pos [of 25] primer_col_24 best_pred_def best_step_def
        reference_states reference_entries primer_nth)

lemma reference_exon_pred:
  assumes "0 < V ''E''" and "b \<in> set (dna_bases reference_model)"
  shows "best_pred reference_model V ''E'' b = (V ''E'' * (9 / 10) * (1 / 4), Some ''E'')"
  using assms(1)
  by (simp add: best_pred_def best_step_def reference_states reference_entries
        reference_exon_emission [OF assms(2)])

lemma reference_exon_trace:
  assumes "set dna_seq \<subseteq> set (dna_bases reference_model)"
  shows "k < length dna_seq \<Longrightarrow>
         0 < vit reference_model dna_seq k ''E'' \<and>
         traced reference_model dna_seq k ''E'' = replicate (Suc k) ''E''"
proof (induction k)
  case 0
  then have "dna_seq ! 0 \<in> set (dna_bases reference_model)"
    using assms nth_mem by blast
  then show ?case
    by (simp add: reference_entries reference_exon_emission)
next
  case (Suc k)
  then have IH: "0 < vit reference_model dna_seq k ''E''"
      "traced reference_model dna_seq k ''E'' = replicate (Suc k) ''E''"
    by simp_all
  from Suc.prems assms have b: "dna_seq ! Suc k \<in> set (dna_bases reference_model)"
    using nth_mem by blast
  have pred: "best_pred reference_model (vit reference_model dna_seq k) ''E'' (dna_seq ! Suc k) =
      (vit reference_model dna_seq k ''E'' * (9 / 10) * (1 / 4), Some ''E'')"
    using IH(1) b by (rule reference_exon_pred)
  have "bptr reference_model dna_seq (Suc k) ''E'' = Some ''E''"
    by (simp add: bptr_def pred)
  moreover have "0 < vit reference_model dna_seq (Suc k) ''E''"
    using IH(1) by (simp add: pred)
  ultimately show ?case
    by (simp add: IH(2) replicate_append_same)
qed

lemma primer_seq_length: "length primer_seq = 26"
  by (simp add: primer_seq_def chars_def)

lemma primer_seq_bases: "set primer_seq \<subseteq> set (dna_bases reference_model)"
  by (simp add: primer_seq_def chars_def reference_bases)

lemma primer_final_state: "final_state reference_model primer_seq = ''E''"
  by (simp add: final_state_def dp_col_def reference_states max_step_def primer_seq_length
        primer_col_25)

text \<open>
  Claim C4. With the notebook's tables, the decoder maps the sequence
  \<^verbatim>\<open>CTTCATGTGAAAGCAGACGTAAGTCA\<close> to the path of 26 states \<^verbatim>\<open>E\<close>.
\<close>

theorem primer_sequence_decoded:
  "find_best_path reference_model (chars ''CTTCATGTGAAAGCAGACGTAAGTCA'') =
     Inr (replicate 26 (Some ''E''))"
proof -
  have ne: "primer_seq \<noteq> []"
    using primer_seq_length by auto
  have pos: "0 < vit reference_model primer_seq (length primer_seq - 1)
      (final_state reference_model primer_seq)"
    by (simp add: primer_seq_length primer_final_state primer_col_25)
  have "traced reference_model primer_seq 25 ''E'' = replicate (Suc 25) ''E''"
    using reference_exon_trace [OF primer_seq_bases, of 25]
    by (simp add: primer_seq_length)
  then have tr: "traced reference_model primer_seq (length primer_seq - 1)
      (final_state reference_model primer_seq) = replicate 26 ''E''"
    by (simp add: primer_seq_length primer_final_state)
  have "find_best_path reference_model primer_seq = Inr (replicate 26 (Some ''E''))"
    unfolding decode_valid [OF reference_model_valid ne primer_seq_bases pos] tr
    by simp
  then show ?thesis
    by (simp only: primer_seq_def)
qed

end
